theory Spec2Isabelle
  imports Main "HOL-Library.Multiset"
begin

section \<open>JavaScript values\<close>

text \<open>
  The values that reach \<^verbatim>\<open>app.js\<close> come from JSON (request bodies, \<^verbatim>\<open>task.json\<close>) and
  from the query string. \<open>JNum\<close> holds the integer-valued numbers; \<open>JObject\<close> stands for
  an array or an object and carries the string that \<^verbatim>\<open>ToPrimitive\<close> gives for it (the only
  thing the program can observe of it, through \<^verbatim>\<open>new Date(v)\<close>). Strings are sequences
  of code units below 256 (Latin-1).
\<close>

datatype jsval = JUndefined | JNull | JBool bool | JNum int | JStr string | JObject string

text \<open>A JavaScript object read by property name; an absent property reads \<open>JUndefined\<close>.\<close>

type_synonym jsobject = "string \<Rightarrow> jsval"

definition empty_object :: jsobject where
  "empty_object = (\<lambda>k. JUndefined)"

text \<open>\<^verbatim>\<open>ToBoolean\<close>: what \<^verbatim>\<open>!v\<close> and \<^verbatim>\<open>v || w\<close> test.\<close>

fun truthy :: "jsval \<Rightarrow> bool" where
  "truthy JUndefined = False"
| "truthy JNull = False"
| "truthy (JBool b) = b"
| "truthy (JNum n) = (n \<noteq> 0)"
| "truthy (JStr s) = (s \<noteq> [])"
| "truthy (JObject s) = True"

fun typeof :: "jsval \<Rightarrow> string" where
  "typeof JUndefined = ''undefined''"
| "typeof JNull = ''object''"
| "typeof (JBool b) = ''boolean''"
| "typeof (JNum n) = ''number''"
| "typeof (JStr s) = ''string''"
| "typeof (JObject s) = ''object''"

text \<open>\<^verbatim>\<open>a || b\<close>\<close>

definition or_js :: "jsval \<Rightarrow> jsval \<Rightarrow> jsval" where
  "or_js a b = (if truthy a then a else b)"

text \<open>
  \<^verbatim>\<open>a === b\<close>. Every use in the program has a primitive on one side, so an object is
  never equal to the other operand.
\<close>

fun strict_eq :: "jsval \<Rightarrow> jsval \<Rightarrow> bool" where
  "strict_eq (JObject s) v = False"
| "strict_eq v (JObject s) = False"
| "strict_eq v w = (v = w)"

section \<open>Numbers\<close>

text \<open>
  A JavaScript number is a double. An integer of magnitude up to \<open>2 ^ 53\<close> is one
  exactly; a larger integer is rounded to 53 significant bits, to the nearer neighbour
  and to the even one on a tie. \<open>number_of_int\<close> is that rounding, and \<open>add_js\<close> is
  \<^verbatim>\<open>a + b\<close> on two integer-valued numbers: the exact sum, rounded.
\<close>

function bit_length :: "int \<Rightarrow> nat" where
  "bit_length n = (if n \<le> 0 then 0 else Suc (bit_length (n div 2)))"
  by pat_completeness auto
termination
  by (relation "measure nat") auto

declare bit_length.simps [simp del]

text \<open>A magnitude above \<open>2 ^ 53\<close>, rounded to a multiple of its unit in the last place.\<close>

definition round53 :: "int \<Rightarrow> int" where
  "round53 a =
     (let ulp = 2 ^ (bit_length a - 53);
          q = a div ulp;
          r = a mod ulp
      in (if ulp < 2 * r \<or> (2 * r = ulp \<and> odd q) then q + 1 else q) * ulp)"

definition number_of_int :: "int \<Rightarrow> int" where
  "number_of_int n =
     (if \<bar>n\<bar> \<le> 9007199254740992 then n else sgn n * round53 \<bar>n\<bar>)"

definition add_js :: "int \<Rightarrow> int \<Rightarrow> int" where
  "add_js a b = number_of_int (a + b)"

text \<open>
  A number of magnitude \<open>2 ^ 1024\<close> or more is \<^verbatim>\<open>Infinity\<close>. Like \<^verbatim>\<open>NaN\<close> it is equal to
  no id of the store, and both are \<open>None\<close>.
\<close>

definition finite_number :: "int \<Rightarrow> int option" where
  "finite_number v = (if bit_length \<bar>v\<bar> \<le> 1024 then Some v else None)"

section \<open>Strings\<close>

text \<open>White space and line terminators below U+0100: TAB, LF, VT, FF, CR, space, NBSP.\<close>

definition is_ws :: "char \<Rightarrow> bool" where
  "is_ws c = (of_char c \<in> {9::nat, 10, 11, 12, 13, 32, 160})"

text \<open>\<^verbatim>\<open>String.prototype.trim\<close>\<close>

definition trim :: "string \<Rightarrow> string" where
  "trim s = rev (dropWhile is_ws (rev (dropWhile is_ws s)))"

text \<open>\<^verbatim>\<open>String.prototype.toLowerCase\<close> on Latin-1: A-Z and U+00C0..U+00DE except U+00D7.\<close>

definition lower_char :: "char \<Rightarrow> char" where
  "lower_char c =
     (let n = (of_char c :: nat)
      in if (65 \<le> n \<and> n \<le> 90) \<or> (192 \<le> n \<and> n \<le> 222 \<and> n \<noteq> 215)
         then char_of (n + 32) else c)"

definition toLowerCase :: "string \<Rightarrow> string" where
  "toLowerCase s = map lower_char s"

text \<open>The value of a digit in \<^verbatim>\<open>parseInt\<close>: 0-9, then a-z and A-Z for 10 to 35.\<close>

definition digit_val :: "char \<Rightarrow> nat option" where
  "digit_val c =
     (let n = (of_char c :: nat)
      in if 48 \<le> n \<and> n \<le> 57 then Some (n - 48)
         else if 97 \<le> n \<and> n \<le> 122 then Some (n - 87)
         else if 65 \<le> n \<and> n \<le> 90 then Some (n - 55)
         else None)"

definition is_digit :: "nat \<Rightarrow> char \<Rightarrow> bool" where
  "is_digit R c = (case digit_val c of None \<Rightarrow> False | Some d \<Rightarrow> d < R)"

definition digits_value :: "nat \<Rightarrow> string \<Rightarrow> nat" where
  "digits_value R z = foldl (\<lambda>a c. a * R + (case digit_val c of None \<Rightarrow> 0 | Some d \<Rightarrow> d)) 0 z"

text \<open>
  \<^verbatim>\<open>parseInt(string)\<close> with no radix: leading white space is skipped, then an optional
  sign, then an optional \<^verbatim>\<open>0x\<close>/\<^verbatim>\<open>0X\<close> (radix 16), then the longest run of digits;
  everything after it is ignored. No digit at all gives \<^verbatim>\<open>NaN\<close>, which is \<open>None\<close> here.
  The result is the number nearest to the integer the digits denote.
\<close>

definition parseInt :: "string \<Rightarrow> int option" where
  "parseInt str =
     (let s = dropWhile is_ws str;
          sign = (if take 1 s = ''-'' then - 1 else 1 :: int);
          s1 = (if take 1 s = ''-'' \<or> take 1 s = ''+'' then drop 1 s else s);
          hex = (take 2 s1 = ''0x'' \<or> take 2 s1 = ''0X'');
          R = (if hex then 16 else 10 :: nat);
          s2 = (if hex then drop 2 s1 else s1);
          z = takeWhile (is_digit R) s2
      in if z = [] then None
         else finite_number (number_of_int (sign * int (digits_value R z))))"

section \<open>Tasks and validation\<close>

text \<open>
  A stored task. \<open>task_id\<close> is the field \<^verbatim>\<open>id\<close>, an integer-valued number as in the data
  model; the other
  fields hold whatever value the request body or \<^verbatim>\<open>task.json\<close> gave them. Further
  properties that a record of \<^verbatim>\<open>task.json\<close> may carry are never read and are left out.
\<close>

record task =
  task_id :: int
  title :: jsval
  description :: jsval
  completed :: jsval
  priority :: jsval
  createdAt :: jsval

datatype validation = Valid | Invalid string

text \<open>
  \<^verbatim>\<open>!v || typeof v !== 'string' || v.trim().length === 0\<close>; the last disjunct is only
  evaluated on a string.
\<close>

definition required_string_fails :: "jsval \<Rightarrow> bool" where
  "required_string_fails v =
     (\<not> truthy v \<or> typeof v \<noteq> ''string'' \<or>
      (case v of JStr s \<Rightarrow> length (trim s) = 0 | _ \<Rightarrow> False))"

text \<open>\<^verbatim>\<open>v !== undefined && (typeof v !== 'string' || v.trim().length === 0)\<close>\<close>

definition optional_string_fails :: "jsval \<Rightarrow> bool" where
  "optional_string_fails v =
     (\<not> strict_eq v JUndefined \<and>
      (typeof v \<noteq> ''string'' \<or> (case v of JStr s \<Rightarrow> length (trim s) = 0 | _ \<Rightarrow> False)))"

definition validPriorities :: "string list" where
  "validPriorities = [''low'', ''medium'', ''high'']"

text \<open>\<^verbatim>\<open>validPriorities.includes(v)\<close>\<close>

definition includes_js :: "string list \<Rightarrow> jsval \<Rightarrow> bool" where
  "includes_js xs v = (\<exists>x \<in> set xs. strict_eq (JStr x) v)"

definition validate_priority :: "jsobject \<Rightarrow> validation" where
  "validate_priority t =
     (if \<not> strict_eq (t ''priority'') JUndefined \<and> \<not> includes_js validPriorities (t ''priority'')
      then Invalid ''priority must be one of: low, medium, high''
      else Valid)"

definition validateTask :: "jsobject \<Rightarrow> bool \<Rightarrow> validation" where
  "validateTask t requireAllFields =
     (if requireAllFields then
        (if required_string_fails (t ''title'')
         then Invalid ''title is required and must be a non-empty string''
         else if required_string_fails (t ''description'')
         then Invalid ''description is required and must be a non-empty string''
         else if strict_eq (t ''completed'') JUndefined \<or> typeof (t ''completed'') \<noteq> ''boolean''
         then Invalid ''completed is required and must be a boolean''
         else validate_priority t)
      else
        (if optional_string_fails (t ''title'')
         then Invalid ''title must be a non-empty string''
         else if optional_string_fails (t ''description'')
         then Invalid ''description must be a non-empty string''
         else if \<not> strict_eq (t ''completed'') JUndefined \<and> typeof (t ''completed'') \<noteq> ''boolean''
         then Invalid ''completed must be a boolean''
         else validate_priority t))"

section \<open>Responses\<close>

datatype json_body =
    JsonTasks "task list"
  | JsonTask task
  | JsonError string
  | JsonMessage string

record response =
  status :: nat
  body :: json_body

definition not_found :: response where
  "not_found = \<lparr>status = 404, body = JsonError ''Task not found''\<rparr>"

section \<open>Dates and sorting\<close>

text \<open>
  \<^verbatim>\<open>new Date(v)\<close> as its time value in milliseconds, \<open>None\<close> for an invalid date (whose
  number is \<^verbatim>\<open>NaN\<close>). \<open>parse\<close> is \<^verbatim>\<open>Date.parse\<close>, a parameter: the runtime supplies it.
  A number is clipped to the range of a date; a boolean or \<^verbatim>\<open>null\<close> is converted to a
  number; an object is converted to its string first.
\<close>

definition time_clip :: "int \<Rightarrow> int option" where
  "time_clip n = (if \<bar>n\<bar> > 8640000000000000 then None else Some n)"

fun new_Date :: "(string \<Rightarrow> int option) \<Rightarrow> jsval \<Rightarrow> int option" where
  "new_Date parse (JStr s) = parse s"
| "new_Date parse (JObject s) = parse s"
| "new_Date parse (JNum n) = time_clip n"
| "new_Date parse (JBool b) = Some (if b then 1 else 0)"
| "new_Date parse JNull = Some 0"
| "new_Date parse JUndefined = None"

text \<open>\<^verbatim>\<open>new Date(t.createdAt || 0)\<close>\<close>

definition task_date :: "(string \<Rightarrow> int option) \<Rightarrow> task \<Rightarrow> int option" where
  "task_date parse t = new_Date parse (or_js (createdAt t) (JNum 0))"

text \<open>\<^verbatim>\<open>x - y\<close> on the numbers of two dates: \<^verbatim>\<open>NaN\<close> when either is.\<close>

fun minus_js :: "int option \<Rightarrow> int option \<Rightarrow> int option" where
  "minus_js (Some x) (Some y) = Some (x - y)"
| "minus_js x y = None"

text \<open>The comparison function handed to \<^verbatim>\<open>sort\<close> in \<^verbatim>\<open>GET /tasks\<close>.\<close>

definition compare_tasks :: "(string \<Rightarrow> int option) \<Rightarrow> jsval \<Rightarrow> task \<Rightarrow> task \<Rightarrow> int option" where
  "compare_tasks parse sort_param a b =
     (let dateA = task_date parse a; dateB = task_date parse b
      in if strict_eq sort_param (JStr ''oldest'') then minus_js dateA dateB
         else minus_js dateB dateA)"

text \<open>
  \<^verbatim>\<open>Array.prototype.sort(comparefn)\<close>. The language fixes the result for a consistent
  comparison function: the stable sorted arrangement, where \<open>a\<close> comes after \<open>b\<close> when
  \<^verbatim>\<open>comparefn(a, b) > 0\<close> and a \<^verbatim>\<open>NaN\<close> result counts as \<open>0\<close>. It is written here as a
  stable insertion sort. For an inconsistent comparison function the language leaves the
  order to the engine (the result is still a permutation), and the order computed here
  need not be the engine's.
\<close>

definition comes_after :: "('a \<Rightarrow> 'a \<Rightarrow> int option) \<Rightarrow> 'a \<Rightarrow> 'a \<Rightarrow> bool" where
  "comes_after comparefn a b = (case comparefn a b of None \<Rightarrow> False | Some v \<Rightarrow> v > 0)"

fun insert_js :: "('a \<Rightarrow> 'a \<Rightarrow> int option) \<Rightarrow> 'a \<Rightarrow> 'a list \<Rightarrow> 'a list" where
  "insert_js comparefn x [] = [x]"
| "insert_js comparefn x (y # ys) =
     (if comes_after comparefn x y then y # insert_js comparefn x ys else x # y # ys)"

fun sort_js :: "('a \<Rightarrow> 'a \<Rightarrow> int option) \<Rightarrow> 'a list \<Rightarrow> 'a list" where
  "sort_js comparefn [] = []"
| "sort_js comparefn (x # xs) = insert_js comparefn x (sort_js comparefn xs)"

section \<open>The store and the request handlers\<close>

text \<open>
  The store is the array \<^verbatim>\<open>tasks\<close>. A handler takes the store and the request and returns
  the store it leaves and the response. \<open>now\<close> is \<^verbatim>\<open>new Date().toISOString()\<close> at the
  time of the request.
\<close>

text \<open>
  Start-up: \<open>None\<close> when reading or parsing \<^verbatim>\<open>task.json\<close> throws, otherwise its tasks, each
  given a priority and a creation time when it has none.
\<close>

definition load_tasks :: "string \<Rightarrow> task list option \<Rightarrow> task list" where
  "load_tasks now file =
     (case file of
        None \<Rightarrow> []
      | Some ts \<Rightarrow>
          map (\<lambda>t. t\<lparr>priority := or_js (priority t) (JStr ''medium''),
                     createdAt := or_js (createdAt t) (JStr now)\<rparr>) ts)"

text \<open>\<^verbatim>\<open>GET /tasks\<close>, with the query parameters \<^verbatim>\<open>completed\<close> and \<^verbatim>\<open>sort\<close>.\<close>

definition get_tasks :: "(string \<Rightarrow> int option) \<Rightarrow> task list \<Rightarrow> jsval \<Rightarrow> jsval \<Rightarrow> response" where
  "get_tasks parse tasks q_completed q_sort =
     (let filteredTasks =
            (if \<not> strict_eq q_completed JUndefined
             then (let completedFilter = strict_eq q_completed (JStr ''true'')
                   in filter (\<lambda>t. strict_eq (completed t) (JBool completedFilter)) tasks)
             else tasks)
      in \<lparr>status = 200, body = JsonTasks (sort_js (compare_tasks parse q_sort) filteredTasks)\<rparr>)"

text \<open>
  \<^verbatim>\<open>GET /tasks/priority/:level\<close>. \<^verbatim>\<open>(task.priority || 'medium').toLowerCase()\<close> throws a
  \<^verbatim>\<open>TypeError\<close> on a value that is not a string, and the filter stops there.
\<close>

datatype js_error = TypeError

definition priority_matches :: "string \<Rightarrow> task \<Rightarrow> js_error + bool" where
  "priority_matches level t =
     (case or_js (priority t) (JStr ''medium'') of
        JStr p \<Rightarrow> Inr (toLowerCase p = level)
      | _ \<Rightarrow> Inl TypeError)"

fun filter_priority :: "string \<Rightarrow> task list \<Rightarrow> js_error + task list" where
  "filter_priority level [] = Inr []"
| "filter_priority level (t # ts) =
     (case priority_matches level t of
        Inl e \<Rightarrow> Inl e
      | Inr keep \<Rightarrow>
          (case filter_priority level ts of
             Inl e \<Rightarrow> Inl e
           | Inr rest \<Rightarrow> Inr (if keep then t # rest else rest)))"

definition get_tasks_priority :: "task list \<Rightarrow> string \<Rightarrow> js_error + response" where
  "get_tasks_priority tasks level_param =
     (let level = toLowerCase level_param
      in if \<not> includes_js validPriorities (JStr level)
         then Inr \<lparr>status = 400,
                   body = JsonError ''Invalid priority level. Must be one of: low, medium, high''\<rparr>
         else (case filter_priority level tasks of
                 Inl e \<Rightarrow> Inl e
               | Inr filteredTasks \<Rightarrow> Inr \<lparr>status = 200, body = JsonTasks filteredTasks\<rparr>))"

text \<open>
  \<^verbatim>\<open>t.id === id\<close> with \<^verbatim>\<open>id = parseInt(req.params.id)\<close>: never true when \<open>id\<close> is \<^verbatim>\<open>NaN\<close>.
\<close>

definition id_matches :: "int option \<Rightarrow> task \<Rightarrow> bool" where
  "id_matches idv t = (case idv of None \<Rightarrow> False | Some n \<Rightarrow> task_id t = n)"

text \<open>\<^verbatim>\<open>Array.prototype.findIndex\<close>; \<open>None\<close> is \<open>-1\<close>.\<close>

fun findIndex :: "('a \<Rightarrow> bool) \<Rightarrow> 'a list \<Rightarrow> nat option" where
  "findIndex P [] = None"
| "findIndex P (x # xs) =
     (if P x then Some 0 else (case findIndex P xs of None \<Rightarrow> None | Some i \<Rightarrow> Some (Suc i)))"

text \<open>\<^verbatim>\<open>GET /tasks/:id\<close>\<close>

definition get_task :: "task list \<Rightarrow> string \<Rightarrow> response" where
  "get_task tasks id_param =
     (let idv = parseInt id_param
      in case find (id_matches idv) tasks of
           None \<Rightarrow> not_found
         | Some t \<Rightarrow> \<lparr>status = 200, body = JsonTask t\<rparr>)"

text \<open>
  \<^verbatim>\<open>tasks.length > 0 ? Math.max(...tasks.map(t => t.id)) : 0\<close>. The engine's limit on the
  number of arguments of one call, which a store of some hundred thousand tasks exceeds,
  is a limit of its stack and is not part of this model.
\<close>

definition maxId :: "task list \<Rightarrow> int" where
  "maxId tasks = (case tasks of [] \<Rightarrow> 0 | t # ts \<Rightarrow> fold (\<lambda>u m. max m (task_id u)) ts (task_id t))"

text \<open>\<^verbatim>\<open>POST /tasks\<close>; the new id is \<^verbatim>\<open>maxId + 1\<close>, an addition of numbers.\<close>

definition post_task :: "string \<Rightarrow> task list \<Rightarrow> jsobject \<Rightarrow> task list \<times> response" where
  "post_task now tasks req_body =
     (case validateTask req_body True of
        Invalid message \<Rightarrow> (tasks, \<lparr>status = 400, body = JsonError message\<rparr>)
      | Valid \<Rightarrow>
          (let newTask = \<lparr>task_id = add_js (maxId tasks) 1,
                          title = req_body ''title'',
                          description = req_body ''description'',
                          completed = req_body ''completed'',
                          priority = or_js (req_body ''priority'') (JStr ''medium''),
                          createdAt = JStr now\<rparr>
           in (tasks @ [newTask], \<lparr>status = 201, body = JsonTask newTask\<rparr>)))"

text \<open>
  \<^verbatim>\<open>PUT /tasks/:id\<close>. The new record takes \<^verbatim>\<open>id\<close> from the parsed parameter, which is the
  matched task's id.
\<close>

definition put_task :: "string \<Rightarrow> task list \<Rightarrow> string \<Rightarrow> jsobject \<Rightarrow> task list \<times> response" where
  "put_task now tasks id_param req_body =
     (let idv = parseInt id_param
      in case findIndex (id_matches idv) tasks of
           None \<Rightarrow> (tasks, not_found)
         | Some taskIndex \<Rightarrow>
             (case validateTask req_body True of
                Invalid message \<Rightarrow> (tasks, \<lparr>status = 400, body = JsonError message\<rparr>)
              | Valid \<Rightarrow>
                  (let existingTask = tasks ! taskIndex;
                       updated = \<lparr>task_id = (case idv of Some n \<Rightarrow> n | None \<Rightarrow> task_id existingTask),
                                  title = req_body ''title'',
                                  description = req_body ''description'',
                                  completed = req_body ''completed'',
                                  priority = or_js (req_body ''priority'')
                                               (or_js (priority existingTask) (JStr ''medium'')),
                                  createdAt = or_js (createdAt existingTask) (JStr now)\<rparr>
                   in (tasks[taskIndex := updated], \<lparr>status = 200, body = JsonTask updated\<rparr>))))"

text \<open>\<^verbatim>\<open>DELETE /tasks/:id\<close>; \<^verbatim>\<open>tasks.splice(taskIndex, 1)\<close> removes one element.\<close>

definition delete_task :: "task list \<Rightarrow> string \<Rightarrow> task list \<times> response" where
  "delete_task tasks id_param =
     (let idv = parseInt id_param
      in case findIndex (id_matches idv) tasks of
           None \<Rightarrow> (tasks, not_found)
         | Some taskIndex \<Rightarrow>
             (take taskIndex tasks @ drop (Suc taskIndex) tasks,
              \<lparr>status = 200, body = JsonMessage ''Task deleted successfully''\<rparr>))"

section \<open>Sequences of requests\<close>

text \<open>A create carries the clock reading and the body, a delete the \<^verbatim>\<open>:id\<close> segment.\<close>

datatype request = Create string jsobject | Delete string

fun handle :: "task list \<Rightarrow> request \<Rightarrow> task list \<times> response" where
  "handle tasks (Create now req_body) = post_task now tasks req_body"
| "handle tasks (Delete id_param) = delete_task tasks id_param"

text \<open>The store after a sequence of requests, and the responses in order.\<close>

fun run :: "task list \<Rightarrow> request list \<Rightarrow> task list \<times> response list" where
  "run tasks [] = (tasks, [])"
| "run tasks (r # rs) =
     (case handle tasks r of
        (tasks', resp) \<Rightarrow> (case run tasks' rs of (tasks'', resps) \<Rightarrow> (tasks'', resp # resps)))"

text \<open>The ids handed out: the \<^verbatim>\<open>id\<close> of each record answered with 201.\<close>

fun issued_ids :: "response list \<Rightarrow> int list" where
  "issued_ids [] = []"
| "issued_ids (r # rs) =
     (case body r of
        JsonTask t \<Rightarrow> (if status r = 201 then task_id t # issued_ids rs else issued_ids rs)
      | _ \<Rightarrow> issued_ids rs)"

text \<open>
  The stores the program can hold: the one loaded at start-up and those left by the
  writing handlers. The clock reading is never the empty string (\<^verbatim>\<open>toISOString\<close> returns
  24 characters).
\<close>

inductive reachable :: "task list \<Rightarrow> bool" where
  loaded: "now \<noteq> [] \<Longrightarrow> reachable (load_tasks now file)"
| posted: "reachable tasks \<Longrightarrow> now \<noteq> [] \<Longrightarrow> reachable (fst (post_task now tasks req_body))"
| updated: "reachable tasks \<Longrightarrow> now \<noteq> [] \<Longrightarrow> reachable (fst (put_task now tasks id_param req_body))"
| deleted: "reachable tasks \<Longrightarrow> reachable (fst (delete_task tasks id_param))"

section \<open>The specification's wording\<close>

text \<open>
  Rule 1 and 2: the field is present, is a string, and has content that is not white
  space.
\<close>

definition rule_nonempty_string :: "jsval \<Rightarrow> bool" where
  "rule_nonempty_string v = (case v of JStr s \<Rightarrow> list_ex (\<lambda>c. \<not> is_ws c) s | _ \<Rightarrow> False)"

text \<open>Rule 3: the field is present and is exactly a boolean.\<close>

definition rule_boolean :: "jsval \<Rightarrow> bool" where
  "rule_boolean v = (case v of JBool b \<Rightarrow> True | _ \<Rightarrow> False)"

text \<open>Rule 4: when present, the field is exactly one of low, medium, high.\<close>

definition rule_priority :: "jsval \<Rightarrow> bool" where
  "rule_priority v = (v = JUndefined \<or> v = JStr ''low'' \<or> v = JStr ''medium'' \<or> v = JStr ''high'')"

text \<open>The rules in their order, the first failure giving the message.\<close>

definition first_failure :: "jsobject \<Rightarrow> validation" where
  "first_failure t =
     (if \<not> rule_nonempty_string (t ''title'')
      then Invalid ''title is required and must be a non-empty string''
      else if \<not> rule_nonempty_string (t ''description'')
      then Invalid ''description is required and must be a non-empty string''
      else if \<not> rule_boolean (t ''completed'')
      then Invalid ''completed is required and must be a boolean''
      else if \<not> rule_priority (t ''priority'')
      then Invalid ''priority must be one of: low, medium, high''
      else Valid)"

text \<open>
  The timestamp the specification sorts by: the date of \<^verbatim>\<open>createdAt\<close>, and epoch zero for
  a task whose \<^verbatim>\<open>createdAt\<close> is missing or is not a date.
\<close>

definition timestamp :: "(string \<Rightarrow> int option) \<Rightarrow> task \<Rightarrow> int" where
  "timestamp parse t = (case task_date parse t of None \<Rightarrow> 0 | Some n \<Rightarrow> n)"

text \<open>A task's priority as a string, \<open>medium\<close> when it has none.\<close>

definition priority_or_medium :: "task \<Rightarrow> string" where
  "priority_or_medium t = (case priority t of JStr p \<Rightarrow> (if p = [] then ''medium'' else p) | _ \<Rightarrow> ''medium'')"

text \<open>The priority is a string or is missing (or another value that counts as false).\<close>

definition priority_typed :: "task \<Rightarrow> bool" where
  "priority_typed t = (typeof (priority t) = ''string'' \<or> \<not> truthy (priority t))"

text \<open>Two bodies that agree on every field but \<^verbatim>\<open>id\<close> and \<^verbatim>\<open>createdAt\<close>.\<close>

definition same_but_id_createdAt :: "jsobject \<Rightarrow> jsobject \<Rightarrow> bool" where
  "same_but_id_createdAt b1 b2 = (\<forall>k. k \<noteq> ''id'' \<and> k \<noteq> ''createdAt'' \<longrightarrow> b1 k = b2 k)"

text \<open>The tasks a response lists.\<close>

definition tasks_of :: "response \<Rightarrow> task list" where
  "tasks_of r = (case body r of JsonTasks ts \<Rightarrow> ts | _ \<Rightarrow> [])"

text \<open>Ordered by timestamp, every earlier entry strictly newer (or strictly older).\<close>

definition newest_first :: "(string \<Rightarrow> int option) \<Rightarrow> task list \<Rightarrow> bool" where
  "newest_first parse ts = sorted_wrt (\<lambda>a b. timestamp parse b < timestamp parse a) ts"

definition oldest_first :: "(string \<Rightarrow> int option) \<Rightarrow> task list \<Rightarrow> bool" where
  "oldest_first parse ts = sorted_wrt (\<lambda>a b. timestamp parse a < timestamp parse b) ts"

section \<open>Concrete requests and stores\<close>

definition body_AB :: jsobject where
  "body_AB = empty_object(''title'' := JStr ''A'', ''description'' := JStr ''B'',
                          ''completed'' := JBool False)"

definition body_high :: jsobject where
  "body_high = body_AB(''priority'' := JStr ''high'')"

definition body_completed_string :: jsobject where
  "body_completed_string = body_AB(''completed'' := JStr ''true'')"

definition body_forged :: jsobject where
  "body_forged = body_AB(''id'' := JNum 99, ''createdAt'' := JStr ''1999-01-01T00:00:00.000Z'')"

definition task1 :: task where
  "task1 = \<lparr>task_id = 1, title = JStr ''first'', description = JStr ''d1'',
            completed = JBool True, priority = JStr ''low'',
            createdAt = JStr ''1970-01-01T00:00:01.000Z''\<rparr>"

definition task2 :: task where
  "task2 = \<lparr>task_id = 2, title = JStr ''second'', description = JStr ''d2'',
            completed = JBool False, priority = JStr ''high'',
            createdAt = JStr ''1970-01-01T00:00:02.000Z''\<rparr>"

definition task_bad_date :: task where
  "task_bad_date = \<lparr>task_id = 3, title = JStr ''third'', description = JStr ''d3'',
                    completed = JBool False, priority = JStr ''medium'',
                    createdAt = JStr ''invalid''\<rparr>"


text \<open>A task as \<^verbatim>\<open>task.json\<close> can hold it, with a number for its priority.\<close>

definition task_priority7 :: task where
  "task_priority7 = \<lparr>task_id = 4, title = JStr ''fourth'', description = JStr ''d4'',
                     completed = JBool False, priority = JNum 7,
                     createdAt = JStr ''1970-01-01T00:00:02.000Z''\<rparr>"

text \<open>A second task with the id 2, as \<^verbatim>\<open>task.json\<close> can hold it.\<close>

definition task2_first :: task where
  "task2_first = \<lparr>task_id = 2, title = JStr ''other'', description = JStr ''d5'',
                  completed = JBool True, priority = JStr ''low'',
                  createdAt = JStr ''1970-01-01T00:00:01.000Z''\<rparr>"

text \<open>\<^verbatim>\<open>Date.parse\<close> on the strings above (\<^verbatim>\<open>NaN\<close> for \<^verbatim>\<open>'invalid'\<close>).\<close>

definition parse_sample :: "string \<Rightarrow> int option" where
  "parse_sample s =
     (if s = ''1970-01-01T00:00:01.000Z'' then Some 1000
      else if s = ''1970-01-01T00:00:02.000Z'' then Some 2000
      else None)"

section \<open>Properties of the helpers\<close>


lemma dropWhile_all_iff: "(\<forall>c \<in> set (dropWhile P s). P c) \<longleftrightarrow> (\<forall>c \<in> set s. P c)"
  by (induction s) auto

lemma trim_Nil_iff: "trim s = [] \<longleftrightarrow> (\<forall>c \<in> set s. is_ws c)"
  by (simp add: trim_def dropWhile_eq_Nil_conv dropWhile_all_iff)

lemma required_string_fails_iff:
  "required_string_fails v \<longleftrightarrow> \<not> (\<exists>s. v = JStr s \<and> trim s \<noteq> [])"
  by (cases v) (auto simp: required_string_fails_def trim_def)

lemma strict_eq_undefined [simp]: "strict_eq v JUndefined \<longleftrightarrow> v = JUndefined"
  by (cases v) auto

lemma strict_eq_JStr [simp]: "strict_eq v (JStr s) \<longleftrightarrow> v = JStr s"
  by (cases v) auto

lemma strict_eq_JStr_left [simp]: "strict_eq (JStr s) v \<longleftrightarrow> v = JStr s"
  by (cases v) auto

lemma strict_eq_JBool [simp]: "strict_eq v (JBool b) \<longleftrightarrow> v = JBool b"
  by (cases v) auto

lemma typeof_boolean_iff: "typeof v = ''boolean'' \<longleftrightarrow> (\<exists>b. v = JBool b)"
  by (cases v) auto

lemma findIndex_None_iff: "findIndex P xs = None \<longleftrightarrow> (\<forall>x \<in> set xs. \<not> P x)"
  by (induction xs) (auto split: option.splits)

lemma findIndex_Some:
  "findIndex P xs = Some i \<Longrightarrow> i < length xs \<and> P (xs ! i) \<and> (\<forall>j < i. \<not> P (xs ! j))"
proof (induction xs arbitrary: i)
  case Nil
  then show ?case by simp
next
  case (Cons x xs)
  show ?case
  proof (cases "P x")
    case True
    with Cons.prems show ?thesis by simp
  next
    case False
    with Cons.prems obtain k where k: "findIndex P xs = Some k" "i = Suc k"
      by (auto split: option.splits)
    from Cons.IH [OF k(1)] False k(2) show ?thesis
      by (auto simp: less_Suc_eq_0_disj)
  qed
qed

lemma find_None_conv: "find P xs = None \<longleftrightarrow> (\<forall>x \<in> set xs. \<not> P x)"
  by (induction xs) auto

lemma fold_max_ge: "(m::int) \<le> fold (\<lambda>u m. max m (f u)) ts m"
  by (induction ts arbitrary: m) (auto intro: order_trans [OF max.cobounded1])

lemma fold_max_mem: "t \<in> set ts \<Longrightarrow> f t \<le> fold (\<lambda>u m. max m (f u)) ts (m::int)"
proof (induction ts arbitrary: m)
  case Nil
  then show ?case by simp
next
  case (Cons a ts)
  show ?case
  proof (cases "t = a")
    case True
    have "f a \<le> max m (f a)" by simp
    also have "\<dots> \<le> fold (\<lambda>u m. max m (f u)) ts (max m (f a))" by (rule fold_max_ge)
    finally show ?thesis using True by simp
  next
    case False
    with Cons show ?thesis by simp
  qed
qed

lemma maxId_ge: "t \<in> set tasks \<Longrightarrow> task_id t \<le> maxId tasks"
proof (cases tasks)
  case Nil
  then show "t \<in> set tasks \<Longrightarrow> ?thesis" by simp
next
  case (Cons a ts)
  assume "t \<in> set tasks"
  with Cons have "t = a \<or> t \<in> set ts" by simp
  then show ?thesis
  proof
    assume "t = a"
    then show ?thesis using Cons fold_max_ge [of "task_id a" task_id ts] by (simp add: maxId_def)
  next
    assume "t \<in> set ts"
    then show ?thesis using Cons fold_max_mem [of t ts task_id "task_id a"] by (simp add: maxId_def)
  qed
qed

lemma mset_insert_js: "mset (insert_js c x ys) = add_mset x (mset ys)"
  by (induction ys) auto

lemma mset_sort_js: "mset (sort_js c xs) = mset xs"
  by (induction xs) (auto simp: mset_insert_js)

lemma set_insert_js: "set (insert_js c x ys) = insert x (set ys)"
  by (induction ys) auto

lemma set_sort_js: "set (sort_js c xs) = set xs"
  by (induction xs) (auto simp: set_insert_js)

lemma sorted_wrt_insert_js:
  assumes "\<And>a b. a \<in> insert x (set ys) \<Longrightarrow> b \<in> insert x (set ys) \<Longrightarrow> comes_after c a b \<Longrightarrow> R b a"
    and "\<And>a b. a \<in> insert x (set ys) \<Longrightarrow> b \<in> insert x (set ys) \<Longrightarrow> \<not> comes_after c a b \<Longrightarrow> R a b"
    and "\<And>a b d. R a b \<Longrightarrow> R b d \<Longrightarrow> R a d"
    and "sorted_wrt R ys"
  shows "sorted_wrt R (insert_js c x ys)"
  using assms
proof (induction ys)
  case Nil
  then show ?case by simp
next
  case (Cons y ys)
  show ?case
  proof (cases "comes_after c x y")
    case True
    have "sorted_wrt R (insert_js c x ys)"
      using Cons.prems by (intro Cons.IH) auto
    moreover have "R y x" using Cons.prems(1) [of x y] True by simp
    moreover have "\<forall>z \<in> set ys. R y z" using Cons.prems(4) by simp
    ultimately show ?thesis using True by (simp add: set_insert_js)
  next
    case False
    have xy: "R x y" using Cons.prems(2) [of x y] False by simp
    have "\<forall>z \<in> set ys. R y z" using Cons.prems(4) by simp
    with xy have "\<forall>z \<in> set ys. R x z" using Cons.prems(3) by blast
    with xy False Cons.prems(4) show ?thesis by simp
  qed
qed

lemma sorted_wrt_sort_js:
  assumes "\<And>a b. a \<in> set xs \<Longrightarrow> b \<in> set xs \<Longrightarrow> comes_after c a b \<Longrightarrow> R b a"
    and "\<And>a b. a \<in> set xs \<Longrightarrow> b \<in> set xs \<Longrightarrow> \<not> comes_after c a b \<Longrightarrow> R a b"
    and "\<And>a b d. R a b \<Longrightarrow> R b d \<Longrightarrow> R a d"
  shows "sorted_wrt R (sort_js c xs)"
  using assms
proof (induction xs)
  case Nil
  then show ?case by simp
next
  case (Cons x xs)
  have "sorted_wrt R (sort_js c xs)"
    using Cons.prems by (intro Cons.IH) auto
  then show ?case
    using Cons.prems by (simp) (rule sorted_wrt_insert_js, auto simp: set_sort_js)
qed

section \<open>Validation\<close>

lemma list_ex_not_ws: "list_ex (\<lambda>c. \<not> is_ws c) s \<longleftrightarrow> trim s \<noteq> []"
  by (simp add: trim_Nil_iff list_ex_iff)

lemma required_string_fails_rule: "required_string_fails v \<longleftrightarrow> \<not> rule_nonempty_string v"
  by (cases v) (auto simp: required_string_fails_iff rule_nonempty_string_def list_ex_not_ws)

lemma completed_check_rule:
  "(v = JUndefined \<or> typeof v \<noteq> ''boolean'') \<longleftrightarrow> \<not> rule_boolean v"
  by (cases v) (auto simp: rule_boolean_def)

lemma validate_priority_rule:
  "validate_priority t =
     (if rule_priority (t ''priority'') then Valid
      else Invalid ''priority must be one of: low, medium, high'')"
  by (auto simp: validate_priority_def rule_priority_def includes_js_def validPriorities_def)

lemma validateTask_strict: "validateTask t True = first_failure t"
  by (simp add: validateTask_def first_failure_def required_string_fails_rule
      completed_check_rule validate_priority_rule)

text \<open>
  C3: for every request body, strict validation checks title, description, completed
  and priority in that order and returns the message of the first rule that fails. A
  body with a valid title and description whose \<^verbatim>\<open>completed\<close> is the string \<^verbatim>\<open>"true"\<close>
  is answered by \<^verbatim>\<open>POST /tasks\<close> with status 400 and the message of the third rule, and
  the store is left as it was.
\<close>

theorem validation_order:
  "validateTask req_body True = first_failure req_body \<and>
   (rule_nonempty_string (req_body ''title'') \<and> rule_nonempty_string (req_body ''description'') \<and>
    req_body ''completed'' = JStr ''true'' \<longrightarrow>
      post_task now tasks req_body =
        (tasks, \<lparr>status = 400, body = JsonError ''completed is required and must be a boolean''\<rparr>))"
  by (simp add: validateTask_strict post_task_def first_failure_def rule_boolean_def)

theorem validation_order_witness:
  "rule_nonempty_string (body_completed_string ''title'') \<and>
   rule_nonempty_string (body_completed_string ''description'') \<and>
   body_completed_string ''completed'' = JStr ''true'' \<and>
   validateTask body_completed_string True = Invalid ''completed is required and must be a boolean'' \<and>
   post_task ''2025-12-28T16:30:59.889Z'' [task1] body_completed_string =
     ([task1], \<lparr>status = 400, body = JsonError ''completed is required and must be a boolean''\<rparr>)"
  using validation_order [of body_completed_string "''2025-12-28T16:30:59.889Z''" "[task1]"]
  by (simp add: body_completed_string_def body_AB_def empty_object_def rule_nonempty_string_def
      is_ws_def first_failure_def rule_boolean_def)

section \<open>Filtering by completion\<close>

text \<open>
  C4: for every store and every value of the query parameter \<^verbatim>\<open>completed\<close>,
  \<^verbatim>\<open>GET /tasks\<close> answers 200 with exactly the tasks (as a multiset) whose \<^verbatim>\<open>completed\<close>
  field is the boolean \<open>v = "true"\<close>: the completed tasks for \<^verbatim>\<open>"true"\<close>, the incomplete
  ones for every other value.
\<close>

theorem completed_filter:
  "q_completed \<noteq> JUndefined \<Longrightarrow>
   status (get_tasks parse tasks q_completed q_sort) = 200 \<and>
   (\<exists>result. body (get_tasks parse tasks q_completed q_sort) = JsonTasks result \<and>
      mset result = mset (filter (\<lambda>t. completed t = JBool (q_completed = JStr ''true'')) tasks))"
  by (simp add: get_tasks_def mset_sort_js)

theorem completed_filter_witness:
  "JStr ''true'' \<noteq> JUndefined \<and> JStr ''false'' \<noteq> JUndefined \<and>
   get_tasks parse_sample [task1, task2] (JStr ''true'') JUndefined =
     \<lparr>status = 200, body = JsonTasks [task1]\<rparr> \<and>
   get_tasks parse_sample [task1, task2] (JStr ''false'') JUndefined =
     \<lparr>status = 200, body = JsonTasks [task2]\<rparr>"
  using completed_filter [of "JStr ''true''" parse_sample "[task1, task2]" JUndefined]
    completed_filter [of "JStr ''false''" parse_sample "[task1, task2]" JUndefined]
  by (simp add: get_tasks_def task1_def task2_def)


section \<open>Requests for an unknown id or with an invalid body\<close>

text \<open>A segment that starts with neither white space, a sign nor a digit parses to \<^verbatim>\<open>NaN\<close>.\<close>

lemma parseInt_no_digit:
  assumes "\<not> is_ws c" and "c \<noteq> CHR ''-''" and "c \<noteq> CHR ''+''" and "\<not> is_digit 10 c"
  shows "parseInt (c # cs) = None"
proof -
  have "c \<noteq> CHR ''0''"
    using assms(4) by (auto simp: is_digit_def digit_val_def)
  then show ?thesis
    using assms by (simp add: parseInt_def)
qed

lemma parseInt_empty: "parseInt [] = None"
  by (simp add: parseInt_def)

lemma id_matches_iff: "id_matches idv t \<longleftrightarrow> idv = Some (task_id t)"
  by (cases idv) (auto simp: id_matches_def)

lemma findIndex_id_None:
  "findIndex (id_matches idv) tasks = None \<longleftrightarrow> (\<forall>t \<in> set tasks. idv \<noteq> Some (task_id t))"
  by (simp add: findIndex_None_iff id_matches_iff)

lemma find_id_None:
  "find (id_matches idv) tasks = None \<longleftrightarrow> (\<forall>t \<in> set tasks. idv \<noteq> Some (task_id t))"
  by (simp add: find_None_conv id_matches_iff)

lemma findIndex_id_exists:
  "\<exists>t \<in> set tasks. idv = Some (task_id t) \<Longrightarrow> \<exists>i. findIndex (id_matches idv) tasks = Some i"
  using findIndex_id_None [of idv tasks] by (cases "findIndex (id_matches idv) tasks") auto

text \<open>
  C7: for every \<^verbatim>\<open>PUT /tasks/:id\<close>: when no task has the parsed id the answer is 404,
  whatever the body (the existence check comes first); when a task has it and the body
  fails strict validation the answer is 400 with the validation message; in both cases
  the store is returned as it was.
\<close>

theorem put_failures:
  "((\<forall>t \<in> set tasks. parseInt id_param \<noteq> Some (task_id t)) \<longrightarrow>
      put_task now tasks id_param req_body =
        (tasks, \<lparr>status = 404, body = JsonError ''Task not found''\<rparr>)) \<and>
   ((\<exists>t \<in> set tasks. parseInt id_param = Some (task_id t)) \<and>
    validateTask req_body True = Invalid message \<longrightarrow>
      put_task now tasks id_param req_body =
        (tasks, \<lparr>status = 400, body = JsonError message\<rparr>))"
proof (intro conjI impI)
  assume "\<forall>t \<in> set tasks. parseInt id_param \<noteq> Some (task_id t)"
  then have "findIndex (id_matches (parseInt id_param)) tasks = None"
    by (simp add: findIndex_id_None)
  then show "put_task now tasks id_param req_body =
      (tasks, \<lparr>status = 404, body = JsonError ''Task not found''\<rparr>)"
    by (simp add: put_task_def not_found_def)
next
  assume a: "(\<exists>t \<in> set tasks. parseInt id_param = Some (task_id t)) \<and>
    validateTask req_body True = Invalid message"
  then obtain i where "findIndex (id_matches (parseInt id_param)) tasks = Some i"
    using findIndex_id_exists [of tasks "parseInt id_param"] by blast
  with a show "put_task now tasks id_param req_body =
      (tasks, \<lparr>status = 400, body = JsonError message\<rparr>)"
    by (simp add: put_task_def)
qed

theorem put_failures_witness:
  "parseInt ''999'' \<noteq> Some (task_id task1) \<and> parseInt ''999'' \<noteq> Some (task_id task2) \<and>
   validateTask empty_object True = Invalid ''title is required and must be a non-empty string'' \<and>
   put_task ''2025-12-28T16:30:59.889Z'' [task1, task2] ''999'' empty_object =
     ([task1, task2], \<lparr>status = 404, body = JsonError ''Task not found''\<rparr>) \<and>
   put_task ''2025-12-28T16:30:59.889Z'' [task1, task2] ''999'' body_AB =
     ([task1, task2], \<lparr>status = 404, body = JsonError ''Task not found''\<rparr>) \<and>
   (\<exists>t \<in> set [task1, task2]. parseInt ''2'' = Some (task_id t)) \<and>
   put_task ''2025-12-28T16:30:59.889Z'' [task1, task2] ''2'' empty_object =
     ([task1, task2],
      \<lparr>status = 400, body = JsonError ''title is required and must be a non-empty string''\<rparr>)"
proof -
  have p999: "parseInt ''999'' = Some 999" by code_simp
  have p2: "parseInt ''2'' = Some 2" by code_simp
  have h1: "\<forall>t \<in> set [task1, task2]. parseInt ''999'' \<noteq> Some (task_id t)"
    by (simp add: p999 task1_def task2_def)
  have h2: "\<exists>t \<in> set [task1, task2]. parseInt ''2'' = Some (task_id t)"
    by (simp add: p2 task1_def task2_def)
  have v: "validateTask empty_object True =
      Invalid ''title is required and must be a non-empty string''"
    by (simp add: validateTask_def empty_object_def required_string_fails_def)
  show ?thesis
    using h1 h2 v
      put_failures [of "[task1, task2]" "''999''" "''2025-12-28T16:30:59.889Z''" empty_object]
      put_failures [of "[task1, task2]" "''999''" "''2025-12-28T16:30:59.889Z''" body_AB]
      put_failures [of "[task1, task2]" "''2''" "''2025-12-28T16:30:59.889Z''" empty_object
        "''title is required and must be a non-empty string''"]
    by simp
qed

text \<open>
  C9: for every \<^verbatim>\<open>:id\<close> segment whose \<^verbatim>\<open>parseInt\<close> is not the id of a stored task
  (\<^verbatim>\<open>NaN\<close> included, which is what a segment without digits parses to),
  \<^verbatim>\<open>GET\<close>, \<^verbatim>\<open>PUT\<close> and \<^verbatim>\<open>DELETE /tasks/:id\<close> all answer 404 with the error
  \<^verbatim>\<open>Task not found\<close>, and the store is unchanged.
\<close>

theorem unknown_id_not_found:
  "\<forall>t \<in> set tasks. parseInt id_param \<noteq> Some (task_id t) \<Longrightarrow>
   get_task tasks id_param = \<lparr>status = 404, body = JsonError ''Task not found''\<rparr> \<and>
   put_task now tasks id_param req_body =
     (tasks, \<lparr>status = 404, body = JsonError ''Task not found''\<rparr>) \<and>
   delete_task tasks id_param = (tasks, \<lparr>status = 404, body = JsonError ''Task not found''\<rparr>)"
  by (simp add: get_task_def put_task_def delete_task_def not_found_def
      findIndex_id_None [THEN iffD2] find_id_None [THEN iffD2])

theorem unknown_id_not_found_witness:
  "parseInt ''abc'' = None \<and>
   get_task [task1, task2] ''abc'' = \<lparr>status = 404, body = JsonError ''Task not found''\<rparr> \<and>
   put_task ''2025-12-28T16:30:59.889Z'' [task1, task2] ''abc'' body_AB =
     ([task1, task2], \<lparr>status = 404, body = JsonError ''Task not found''\<rparr>) \<and>
   delete_task [task1, task2] ''abc'' =
     ([task1, task2], \<lparr>status = 404, body = JsonError ''Task not found''\<rparr>)"
proof -
  have p: "parseInt ''abc'' = None" by code_simp
  have h: "\<forall>t \<in> set [task1, task2]. parseInt ''abc'' \<noteq> Some (task_id t)"
    by (simp add: p)
  show ?thesis
    using p h unknown_id_not_found [OF h, of "''2025-12-28T16:30:59.889Z''" body_AB]
    by simp
qed

section \<open>Fields the server generates\<close>

lemma validateTask_cong:
  "same_but_id_createdAt b1 b2 \<Longrightarrow> validateTask b1 flag = validateTask b2 flag"
  by (simp add: same_but_id_createdAt_def validateTask_def validate_priority_def)

text \<open>
  C10: two bodies that differ only in \<^verbatim>\<open>id\<close> and \<^verbatim>\<open>createdAt\<close>, handled on the same
  store at the same clock reading, give the same store and the same response, for
  \<^verbatim>\<open>POST /tasks\<close> and for \<^verbatim>\<open>PUT /tasks/:id\<close>; a created record has the id that
  the server computes, \<^verbatim>\<open>maxId + 1\<close>, and the clock reading as \<^verbatim>\<open>createdAt\<close>.
\<close>

theorem body_id_createdAt_ignored:
  "same_but_id_createdAt b1 b2 \<Longrightarrow>
   post_task now tasks b1 = post_task now tasks b2 \<and>
   put_task now tasks id_param b1 = put_task now tasks id_param b2 \<and>
   (validateTask b1 True = Valid \<longrightarrow>
      (\<exists>t. post_task now tasks b1 = (tasks @ [t], \<lparr>status = 201, body = JsonTask t\<rparr>) \<and>
           task_id t = add_js (maxId tasks) 1 \<and> createdAt t = JStr now))"
proof -
  assume s: "same_but_id_createdAt b1 b2"
  have f: "b1 ''title'' = b2 ''title''" "b1 ''description'' = b2 ''description''"
    "b1 ''completed'' = b2 ''completed''" "b1 ''priority'' = b2 ''priority''"
    using s by (simp_all add: same_but_id_createdAt_def)
  have v: "validateTask b1 True = validateTask b2 True"
    using s by (rule validateTask_cong)
  have "post_task now tasks b1 = post_task now tasks b2"
    by (simp add: post_task_def v f split: validation.splits)
  moreover have "put_task now tasks id_param b1 = put_task now tasks id_param b2"
    by (simp add: put_task_def v f Let_def split: validation.splits option.splits)
  moreover have "validateTask b1 True = Valid \<longrightarrow>
      (\<exists>t. post_task now tasks b1 = (tasks @ [t], \<lparr>status = 201, body = JsonTask t\<rparr>) \<and>
           task_id t = add_js (maxId tasks) 1 \<and> createdAt t = JStr now)"
    by (simp add: post_task_def Let_def)
  ultimately show ?thesis by simp
qed

theorem body_id_createdAt_ignored_witness:
  "same_but_id_createdAt body_AB body_forged \<and>
   post_task ''2025-12-28T16:30:59.889Z'' [task1, task2] body_forged =
     post_task ''2025-12-28T16:30:59.889Z'' [task1, task2] body_AB \<and>
   put_task ''2025-12-28T16:30:59.889Z'' [task1, task2] ''1'' body_forged =
     put_task ''2025-12-28T16:30:59.889Z'' [task1, task2] ''1'' body_AB \<and>
   fst (post_task ''2025-12-28T16:30:59.889Z'' [task1, task2] body_forged) =
     [task1, task2,
      \<lparr>task_id = 3, title = JStr ''A'', description = JStr ''B'', completed = JBool False,
         priority = JStr ''medium'', createdAt = JStr ''2025-12-28T16:30:59.889Z''\<rparr>]"
proof -
  have h: "same_but_id_createdAt body_AB body_forged"
    by (simp add: same_but_id_createdAt_def body_forged_def)
  have e: "fst (post_task ''2025-12-28T16:30:59.889Z'' [task1, task2] body_AB) =
     [task1, task2,
      \<lparr>task_id = 3, title = JStr ''A'', description = JStr ''B'', completed = JBool False,
         priority = JStr ''medium'', createdAt = JStr ''2025-12-28T16:30:59.889Z''\<rparr>]"
    by (simp add: post_task_def validateTask_strict first_failure_def rule_nonempty_string_def
        rule_boolean_def rule_priority_def body_AB_def empty_object_def is_ws_def maxId_def
        task1_def task2_def or_js_def Let_def add_js_def number_of_int_def)
  show ?thesis
    using h e body_id_createdAt_ignored [OF h, of "''2025-12-28T16:30:59.889Z''" "[task1, task2]" "''1''"]
    by simp
qed


section \<open>Create, then read\<close>

text \<open>Up to \<open>2 ^ 53\<close> the addition of numbers is the addition of integers; there it stops.\<close>

lemma add_js_exact: "\<bar>a + b\<bar> \<le> 9007199254740992 \<Longrightarrow> add_js a b = a + b"
  by (simp add: add_js_def number_of_int_def)


lemma post_task_valid:
  "validateTask b True = Valid \<Longrightarrow>
   post_task now tasks b =
     (tasks @ [\<lparr>task_id = add_js (maxId tasks) 1, title = b ''title'', description = b ''description'',
                 completed = b ''completed'', priority = or_js (b ''priority'') (JStr ''medium''),
                 createdAt = JStr now\<rparr>],
      \<lparr>status = 201,
         body = JsonTask \<lparr>task_id = add_js (maxId tasks) 1, title = b ''title'',
                   description = b ''description'', completed = b ''completed'',
                   priority = or_js (b ''priority'') (JStr ''medium''), createdAt = JStr now\<rparr>\<rparr>)"
  by (simp add: post_task_def Let_def)

lemma valid_priority:
  "validateTask b True = Valid \<Longrightarrow> b ''priority'' = JUndefined \<or> truthy (b ''priority'')"
  by (auto simp: validateTask_strict first_failure_def rule_priority_def split: if_splits)


lemma body_AB_valid: "validateTask body_AB True = Valid"
  by (simp add: validateTask_strict first_failure_def rule_nonempty_string_def
      rule_boolean_def rule_priority_def body_AB_def empty_object_def is_ws_def)





section \<open>Update\<close>

text \<open>In every store the program can hold, priority and creation time count as true.\<close>

lemma truthy_or_js: "truthy b \<Longrightarrow> truthy (or_js a b)"
  by (simp add: or_js_def)

lemma or_js_truthy: "truthy a \<Longrightarrow> or_js a b = a"
  by (simp add: or_js_def)

lemma set_splice_subset: "set (take i xs @ drop (Suc i) xs) \<subseteq> set xs"
  using set_take_subset [of i xs] set_drop_subset [of "Suc i" xs] by auto

lemma reachable_fields:
  "reachable tasks \<Longrightarrow> \<forall>t \<in> set tasks. truthy (priority t) \<and> truthy (createdAt t)"
proof (induction rule: reachable.induct)
  case (loaded now src)
  then show ?case
    by (cases src) (auto simp: load_tasks_def truthy_or_js)
next
  case (posted tasks now req_body)
  then show ?case
    by (cases "validateTask req_body True") (auto simp: post_task_def Let_def truthy_or_js)
next
  case (updated tasks now id_param req_body)
  show ?case
  proof (cases "findIndex (id_matches (parseInt id_param)) tasks")
    case None
    with updated show ?thesis by (simp add: put_task_def)
  next
    case (Some i)
    show ?thesis
    proof (cases "validateTask req_body True")
      case Valid
      show ?thesis
      proof
        fix t assume "t \<in> set (fst (put_task now tasks id_param req_body))"
        then have "t \<in> insert \<lparr>task_id = (case parseInt id_param of Some n \<Rightarrow> n | None \<Rightarrow> task_id (tasks ! i)),
            title = req_body ''title'', description = req_body ''description'',
            completed = req_body ''completed'',
            priority = or_js (req_body ''priority'') (or_js (priority (tasks ! i)) (JStr ''medium'')),
            createdAt = or_js (createdAt (tasks ! i)) (JStr now)\<rparr> (set tasks)"
          using Some Valid set_update_subset_insert [of tasks i]
          by (auto simp: put_task_def Let_def)
        then show "truthy (priority t) \<and> truthy (createdAt t)"
          using updated by (auto simp: truthy_or_js)
      qed
    next
      case (Invalid m)
      with Some updated show ?thesis by (simp add: put_task_def)
    qed
  qed
next
  case (deleted tasks id_param)
  then show ?case
    using set_splice_subset [of _ tasks]
    by (cases "findIndex (id_matches (parseInt id_param)) tasks")
      (auto simp: delete_task_def)
qed

lemma findIndex_first:
  assumes "i < length xs" and "P (xs ! i)" and "\<forall>j < i. \<not> P (xs ! j)"
  shows "findIndex P xs = Some i"
proof -
  have "xs ! i \<in> set xs" using assms(1) by simp
  with assms(2) have "findIndex P xs \<noteq> None" by (auto simp: findIndex_None_iff)
  then obtain k where k: "findIndex P xs = Some k" by auto
  from findIndex_Some [OF k] have kp: "P (xs ! k)" and kl: "\<forall>j < k. \<not> P (xs ! j)"
    by simp_all
  have "\<not> k < i" using assms(3) kp by blast
  moreover have "\<not> i < k" using kl assms(2) by blast
  ultimately show ?thesis using k by simp
qed

text \<open>With unique ids, every task is the first one with its id.\<close>

lemma distinct_ids_first:
  assumes "distinct (map task_id tasks)" and "i < length tasks"
  shows "\<forall>j < i. task_id (tasks ! j) \<noteq> task_id (tasks ! i)"
proof (intro allI impI)
  fix j assume j: "j < i"
  then have "map task_id tasks ! j \<noteq> map task_id tasks ! i"
    using assms nth_eq_iff_index_eq [of "map task_id tasks" j i] by simp
  then show "task_id (tasks ! j) \<noteq> task_id (tasks ! i)"
    using assms(2) j by simp
qed

lemma load_sample: "load_tasks ''2025-12-28T16:30:59.889Z'' (Some [task1, task2]) = [task1, task2]"
  by (simp add: load_tasks_def task1_def task2_def or_js_def)

text \<open>
  C6 as stated does not hold: \<^verbatim>\<open>task.json\<close> may give two tasks the same id, and
  \<^verbatim>\<open>PUT /tasks/:id\<close> then rewrites the first of them. For the second one, the stored
  record has the creation time and the priority of the first, and the second task is
  left as it was.
\<close>

theorem update_duplicate_id_counterexample:
  "reachable [task2_first, task2] \<and> task2 \<in> set [task2_first, task2] \<and>
   parseInt ''2'' = Some (task_id task2) \<and> validateTask body_AB True = Valid \<and>
   put_task ''2025-12-28T16:30:59.889Z'' [task2_first, task2] ''2'' body_AB =
     ([\<lparr>task_id = 2, title = JStr ''A'', description = JStr ''B'', completed = JBool False,
          priority = JStr ''low'', createdAt = JStr ''1970-01-01T00:00:01.000Z''\<rparr>,
       task2],
      \<lparr>status = 200,
         body = JsonTask \<lparr>task_id = 2, title = JStr ''A'', description = JStr ''B'',
                  completed = JBool False, priority = JStr ''low'',
                  createdAt = JStr ''1970-01-01T00:00:01.000Z''\<rparr>\<rparr>) \<and>
   createdAt task2 = JStr ''1970-01-01T00:00:02.000Z'' \<and> priority task2 = JStr ''high''"
proof -
  have l: "load_tasks ''2025-12-28T16:30:59.889Z'' (Some [task2_first, task2]) =
      [task2_first, task2]"
    by (simp add: load_tasks_def task2_first_def task2_def or_js_def)
  have "reachable (load_tasks ''2025-12-28T16:30:59.889Z'' (Some [task2_first, task2]))"
    by (rule reachable.loaded) simp
  then have r: "reachable [task2_first, task2]" by (simp add: l)
  have p2: "parseInt ''2'' = Some 2" by code_simp
  have f: "body_AB ''title'' = JStr ''A''" "body_AB ''description'' = JStr ''B''"
    "body_AB ''completed'' = JBool False" "body_AB ''priority'' = JUndefined"
    by (simp_all add: body_AB_def empty_object_def)
  have i: "findIndex (id_matches (Some 2)) [task2_first, task2] = Some 0"
    by (simp add: id_matches_def task2_first_def)
  have g: "priority task2_first = JStr ''low''"
    "createdAt task2_first = JStr ''1970-01-01T00:00:01.000Z''"
    by (simp_all add: task2_first_def)
  have u: "put_task ''2025-12-28T16:30:59.889Z'' [task2_first, task2] ''2'' body_AB =
     ([\<lparr>task_id = 2, title = JStr ''A'', description = JStr ''B'', completed = JBool False,
          priority = JStr ''low'', createdAt = JStr ''1970-01-01T00:00:01.000Z''\<rparr>,
       task2],
      \<lparr>status = 200,
         body = JsonTask \<lparr>task_id = 2, title = JStr ''A'', description = JStr ''B'',
                  completed = JBool False, priority = JStr ''low'',
                  createdAt = JStr ''1970-01-01T00:00:01.000Z''\<rparr>\<rparr>)"
    unfolding put_task_def Let_def p2 i by (simp add: body_AB_valid f g or_js_def)
  show ?thesis
    using r p2 body_AB_valid u by (simp add: task2_def)
qed

text \<open>
  C6, amended: for every store the program can hold, every task \<open>t\<close> that is the first
  task of the store with its id (as every task is when ids are unique) and every body
  that passes strict validation, \<^verbatim>\<open>PUT /tasks/:id\<close> with \<open>t\<close>'s id answers 200 and puts, in
  \<open>t\<close>'s place, a record with \<open>t\<close>'s \<^verbatim>\<open>id\<close> and \<^verbatim>\<open>createdAt\<close>, the body's title,
  description and completed, and the body's priority when present and \<open>t\<close>'s otherwise;
  every other position of the store is unchanged.
\<close>

theorem update_replaces_fields:
  assumes "reachable tasks"
    and "i < length tasks" and "tasks ! i = t"
    and "\<forall>j < i. task_id (tasks ! j) \<noteq> task_id t"
    and "parseInt id_param = Some (task_id t)"
    and "validateTask req_body True = Valid"
  shows "\<exists>u.
     put_task now tasks id_param req_body = (tasks[i := u], \<lparr>status = 200, body = JsonTask u\<rparr>) \<and>
     task_id u = task_id t \<and> createdAt u = createdAt t \<and>
     title u = req_body ''title'' \<and> description u = req_body ''description'' \<and>
     completed u = req_body ''completed'' \<and>
     priority u = (if req_body ''priority'' = JUndefined then priority t else req_body ''priority'') \<and>
     (\<forall>j < length tasks. j \<noteq> i \<longrightarrow> fst (put_task now tasks id_param req_body) ! j = tasks ! j) \<and>
     length (fst (put_task now tasks id_param req_body)) = length tasks"
proof -
  have "\<forall>j < i. \<not> id_matches (parseInt id_param) (tasks ! j)"
    using assms(4,5) by (auto simp: id_matches_iff)
  moreover have "id_matches (parseInt id_param) (tasks ! i)"
    using assms(3,5) by (simp add: id_matches_iff)
  ultimately have i: "findIndex (id_matches (parseInt id_param)) tasks = Some i"
    using assms(2) by (intro findIndex_first)
  have tm: "t \<in> set tasks" using assms(2,3) by auto
  have tr: "truthy (priority t)" "truthy (createdAt t)"
    using reachable_fields [OF assms(1)] tm by simp_all
  define u where "u = \<lparr>task_id = task_id t, title = req_body ''title'',
      description = req_body ''description'', completed = req_body ''completed'',
      priority = or_js (req_body ''priority'') (priority t), createdAt = createdAt t\<rparr>"
  have p: "put_task now tasks id_param req_body =
      (tasks[i := u], \<lparr>status = 200, body = JsonTask u\<rparr>)"
    using i assms(3,5,6) tr by (simp add: put_task_def Let_def u_def or_js_truthy)
  have pr: "priority u = (if req_body ''priority'' = JUndefined then priority t else req_body ''priority'')"
    using valid_priority [OF assms(6)] by (auto simp: u_def or_js_def)
  have rest: "task_id u = task_id t" "createdAt u = createdAt t" "title u = req_body ''title''"
    "description u = req_body ''description''" "completed u = req_body ''completed''"
    by (simp_all add: u_def)
  have frame: "\<forall>j < length tasks. j \<noteq> i \<longrightarrow> fst (put_task now tasks id_param req_body) ! j = tasks ! j"
    "length (fst (put_task now tasks id_param req_body)) = length tasks"
    by (simp_all add: p)
  from p pr rest frame show ?thesis by blast
qed

theorem update_replaces_fields_witness:
  "reachable [task1, task2] \<and> (1::nat) < length [task1, task2] \<and> [task1, task2] ! 1 = task2 \<and>
   task_id ([task1, task2] ! 0) \<noteq> task_id task2 \<and>
   parseInt ''2'' = Some (task_id task2) \<and> validateTask body_AB True = Valid \<and>
   put_task ''2025-12-28T16:30:59.889Z'' [task1, task2] ''2'' body_AB =
     ([task1,
       \<lparr>task_id = 2, title = JStr ''A'', description = JStr ''B'', completed = JBool False,
          priority = JStr ''high'', createdAt = JStr ''1970-01-01T00:00:02.000Z''\<rparr>],
      \<lparr>status = 200,
         body = JsonTask \<lparr>task_id = 2, title = JStr ''A'', description = JStr ''B'',
                  completed = JBool False, priority = JStr ''high'',
                  createdAt = JStr ''1970-01-01T00:00:02.000Z''\<rparr>\<rparr>)"
proof -
  have "reachable (load_tasks ''2025-12-28T16:30:59.889Z'' (Some [task1, task2]))"
    by (rule reachable.loaded) simp
  then have h1: "reachable [task1, task2]" by (simp add: load_sample)
  have h2: "(1::nat) < length [task1, task2]" by simp
  have h3: "[task1, task2] ! 1 = task2" by simp
  have h4: "\<forall>j < 1. task_id ([task1, task2] ! j) \<noteq> task_id task2"
    by (simp add: task1_def task2_def)
  have p2: "parseInt ''2'' = Some 2" by code_simp
  have h5: "parseInt ''2'' = Some (task_id task2)" by (simp add: p2 task2_def)
  note h6 = body_AB_valid
  from update_replaces_fields [OF h1 h2 h3 h4 h5 h6, of "''2025-12-28T16:30:59.889Z''"]
  obtain u where iu:
    "put_task ''2025-12-28T16:30:59.889Z'' [task1, task2] ''2'' body_AB =
       ([task1, task2][1 := u], \<lparr>status = 200, body = JsonTask u\<rparr>)"
    "task_id u = task_id task2" "createdAt u = createdAt task2"
    "title u = body_AB ''title''" "description u = body_AB ''description''"
    "completed u = body_AB ''completed''"
    "priority u = (if body_AB ''priority'' = JUndefined then priority task2 else body_AB ''priority'')"
    by blast
  have ue: "u = \<lparr>task_id = 2, title = JStr ''A'', description = JStr ''B'', completed = JBool False,
          priority = JStr ''high'', createdAt = JStr ''1970-01-01T00:00:02.000Z''\<rparr>"
    using iu(2-7) by (cases u) (simp add: body_AB_def empty_object_def task2_def)
  have n: "task_id ([task1, task2] ! 0) \<noteq> task_id task2" by (simp add: task1_def task2_def)
  show ?thesis
    using h1 h5 h6 iu(1) n by (simp add: ue)
qed


section \<open>Filtering by priority\<close>

text \<open>The writing handlers keep every priority a string or missing.\<close>

lemma priority_typed_post:
  assumes "\<forall>t \<in> set tasks. priority_typed t"
  shows "\<forall>t \<in> set (fst (post_task now tasks b)). priority_typed t"
proof (cases "validateTask b True")
  case Valid
  then have "rule_priority (b ''priority'')"
    by (auto simp: validateTask_strict first_failure_def split: if_splits)
  then have "typeof (or_js (b ''priority'') (JStr ''medium'')) = ''string''"
    by (auto simp: rule_priority_def or_js_def)
  with assms show ?thesis
    by (auto simp: post_task_valid [OF Valid] priority_typed_def)
next
  case (Invalid m)
  with assms show ?thesis by (simp add: post_task_def)
qed

lemma priority_typed_put:
  assumes "\<forall>t \<in> set tasks. priority_typed t"
  shows "\<forall>t \<in> set (fst (put_task now tasks id_param b)). priority_typed t"
proof (cases "findIndex (id_matches (parseInt id_param)) tasks")
  case None
  with assms show ?thesis by (simp add: put_task_def)
next
  case (Some i)
  show ?thesis
  proof (cases "validateTask b True")
    case Valid
    then have rp: "rule_priority (b ''priority'')"
      by (auto simp: validateTask_strict first_failure_def split: if_splits)
    from findIndex_Some [OF Some] have "tasks ! i \<in> set tasks" by simp
    with assms have "priority_typed (tasks ! i)" by simp
    then have "typeof (or_js (priority (tasks ! i)) (JStr ''medium'')) = ''string''"
      by (auto simp: priority_typed_def or_js_def)
    with rp have ty: "typeof (or_js (b ''priority'') (or_js (priority (tasks ! i)) (JStr ''medium'')))
        = ''string''"
      by (auto simp: rule_priority_def or_js_def)
    define u where "u = \<lparr>task_id = (case parseInt id_param of Some n \<Rightarrow> n | None \<Rightarrow> task_id (tasks ! i)),
        title = b ''title'', description = b ''description'', completed = b ''completed'',
        priority = or_js (b ''priority'') (or_js (priority (tasks ! i)) (JStr ''medium'')),
        createdAt = or_js (createdAt (tasks ! i)) (JStr now)\<rparr>"
    have f: "fst (put_task now tasks id_param b) = tasks[i := u]"
      using Some Valid by (simp add: put_task_def Let_def u_def)
    have pu: "priority_typed u"
      using ty by (simp add: priority_typed_def u_def)
    show ?thesis
    proof
      fix t assume "t \<in> set (fst (put_task now tasks id_param b))"
      then have "t \<in> insert u (set tasks)"
        unfolding f using set_update_subset_insert [of tasks i u] by blast
      with assms pu show "priority_typed t" by auto
    qed
  next
    case (Invalid m)
    with Some assms show ?thesis by (simp add: put_task_def)
  qed
qed

lemma priority_typed_delete:
  assumes "\<forall>t \<in> set tasks. priority_typed t"
  shows "\<forall>t \<in> set (fst (delete_task tasks id_param)). priority_typed t"
  using assms set_splice_subset [of _ tasks]
  by (cases "findIndex (id_matches (parseInt id_param)) tasks") (auto simp: delete_task_def)

lemma priority_matches_typed:
  "priority_typed t \<Longrightarrow>
   priority_matches level t = Inr (toLowerCase (priority_or_medium t) = level)"
  by (cases "priority t")
    (auto simp: priority_typed_def priority_matches_def priority_or_medium_def or_js_def)

lemma filter_priority_typed:
  "\<forall>t \<in> set tasks. priority_typed t \<Longrightarrow>
   filter_priority level tasks =
     Inr (filter (\<lambda>t. toLowerCase (priority_or_medium t) = level) tasks)"
  by (induction tasks) (simp_all add: priority_matches_typed)

lemma includes_validPriorities:
  "includes_js validPriorities (JStr s) \<longleftrightarrow> s \<in> {''low'', ''medium'', ''high''}"
  by (auto simp: includes_js_def validPriorities_def)

text \<open>
  C5 as stated does not hold: \<^verbatim>\<open>task.json\<close> may give a task a priority that is not a
  string, and the loader keeps it. On such a store \<^verbatim>\<open>toLowerCase\<close> throws while the tasks
  are filtered, and the request for a recognised level is not answered with status 200
  (the framework answers the exception with status 500).
\<close>

theorem priority_filter_counterexample:
  "reachable [task1, task_priority7] \<and> toLowerCase ''low'' = ''low'' \<and>
   get_tasks_priority [task1, task_priority7] ''low'' = Inl TypeError"
proof -
  have l: "load_tasks ''2025-12-28T16:30:59.889Z'' (Some [task1, task_priority7]) =
      [task1, task_priority7]"
    by (simp add: load_tasks_def task1_def task_priority7_def or_js_def)
  have "reachable (load_tasks ''2025-12-28T16:30:59.889Z'' (Some [task1, task_priority7]))"
    by (rule reachable.loaded) simp
  then have r: "reachable [task1, task_priority7]" by (simp add: l)
  have lc: "toLowerCase ''low'' = ''low''" by code_simp
  have m1: "priority_matches ''low'' task1 = Inr True"
    by (simp add: priority_matches_def or_js_def task1_def lc)
  have m2: "priority_matches ''low'' task_priority7 = Inl TypeError"
    by (simp add: priority_matches_def or_js_def task_priority7_def)
  have "get_tasks_priority [task1, task_priority7] ''low'' = Inl TypeError"
    by (simp add: get_tasks_priority_def lc includes_validPriorities m1 m2)
  with r lc show ?thesis by simp
qed

text \<open>
  C5, amended: for every path segment \<open>level\<close>: when the lower-cased level is one of low,
  medium, high and every priority in the store is a string or missing,
  \<^verbatim>\<open>GET /tasks/priority/:level\<close> answers 200 with exactly the tasks, in store order, whose
  priority (\<^verbatim>\<open>"medium"\<close> when missing) lower-cased equals it; when the lower-cased level
  is none of the three, it answers 400 with the error
  \<^verbatim>\<open>Invalid priority level. Must be one of: low, medium, high\<close> and no tasks, whatever
  the store holds.
\<close>

theorem priority_filter:
  "(toLowerCase level \<in> {''low'', ''medium'', ''high''} \<and> (\<forall>t \<in> set tasks. priority_typed t) \<longrightarrow>
      get_tasks_priority tasks level =
        Inr \<lparr>status = 200,
              body = JsonTasks (filter (\<lambda>t. toLowerCase (priority_or_medium t) = toLowerCase level)
                                 tasks)\<rparr>) \<and>
   (toLowerCase level \<notin> {''low'', ''medium'', ''high''} \<longrightarrow>
      get_tasks_priority tasks level =
        Inr \<lparr>status = 400,
              body = JsonError ''Invalid priority level. Must be one of: low, medium, high''\<rparr>)"
  by (simp add: get_tasks_priority_def includes_validPriorities filter_priority_typed Let_def)

theorem priority_filter_witness:
  "toLowerCase ''HIGH'' = ''high'' \<and> priority_typed task1 \<and> priority_typed task2 \<and>
   get_tasks_priority [task1, task2] ''HIGH'' = Inr \<lparr>status = 200, body = JsonTasks [task2]\<rparr> \<and>
   toLowerCase ''urgent'' = ''urgent'' \<and>
   get_tasks_priority [task1, task_priority7] ''urgent'' =
     Inr \<lparr>status = 400,
           body = JsonError ''Invalid priority level. Must be one of: low, medium, high''\<rparr>"
proof -
  have h: "\<forall>t \<in> set [task1, task2]. priority_typed t"
    by (simp add: priority_typed_def task1_def task2_def)
  have l1: "toLowerCase ''HIGH'' = ''high''" by code_simp
  have l2: "toLowerCase ''urgent'' = ''urgent''" by code_simp
  have l3: "toLowerCase ''low'' = ''low''" by code_simp
  have l4: "toLowerCase ''high'' = ''high''" by code_simp
  have p: "priority_or_medium task1 = ''low''" "priority_or_medium task2 = ''high''"
    by (simp_all add: priority_or_medium_def task1_def task2_def)
  show ?thesis
    using h priority_filter [of "''HIGH''" "[task1, task2]"]
      priority_filter [of "''urgent''" "[task1, task_priority7]"]
    by (simp add: l1 l2 l3 l4 p)
qed


section \<open>Sorting by creation time\<close>

lemma comes_after_default:
  "task_date parse a = Some x \<Longrightarrow> task_date parse b = Some y \<Longrightarrow> q_sort \<noteq> JStr ''oldest'' \<Longrightarrow>
   comes_after (compare_tasks parse q_sort) a b \<longleftrightarrow> x < y"
  by (simp add: comes_after_def compare_tasks_def)

lemma comes_after_oldest:
  "task_date parse a = Some x \<Longrightarrow> task_date parse b = Some y \<Longrightarrow>
   comes_after (compare_tasks parse (JStr ''oldest'')) a b \<longleftrightarrow> y < x"
  by (simp add: comes_after_def compare_tasks_def)

lemma timestamp_valid: "task_date parse a = Some x \<Longrightarrow> timestamp parse a = x"
  by (simp add: timestamp_def)

lemma sort_js_descending:
  assumes "\<forall>t \<in> set xs. task_date parse t \<noteq> None" and "q_sort \<noteq> JStr ''oldest''"
  shows "sorted_wrt (\<lambda>a b. timestamp parse b \<le> timestamp parse a)
           (sort_js (compare_tasks parse q_sort) xs)"
proof (rule sorted_wrt_sort_js)
  fix a b assume "a \<in> set xs" "b \<in> set xs"
  with assms(1) have "task_date parse a \<noteq> None" "task_date parse b \<noteq> None"
    by simp_all
  then obtain x y where xy: "task_date parse a = Some x" "task_date parse b = Some y"
    by auto
  {
    assume "comes_after (compare_tasks parse q_sort) a b"
    then show "timestamp parse a \<le> timestamp parse b"
      using comes_after_default [OF xy assms(2)] xy by (simp add: timestamp_valid)
  }
  {
    assume "\<not> comes_after (compare_tasks parse q_sort) a b"
    then show "timestamp parse b \<le> timestamp parse a"
      using comes_after_default [OF xy assms(2)] xy by (simp add: timestamp_valid)
  }
next
  fix a b d :: task
  assume "timestamp parse b \<le> timestamp parse a" "timestamp parse d \<le> timestamp parse b"
  then show "timestamp parse d \<le> timestamp parse a" by simp
qed

lemma sort_js_ascending:
  assumes "\<forall>t \<in> set xs. task_date parse t \<noteq> None"
  shows "sorted_wrt (\<lambda>a b. timestamp parse a \<le> timestamp parse b)
           (sort_js (compare_tasks parse (JStr ''oldest'')) xs)"
proof (rule sorted_wrt_sort_js)
  fix a b assume "a \<in> set xs" "b \<in> set xs"
  with assms(1) have "task_date parse a \<noteq> None" "task_date parse b \<noteq> None"
    by simp_all
  then obtain x y where xy: "task_date parse a = Some x" "task_date parse b = Some y"
    by auto
  {
    assume "comes_after (compare_tasks parse (JStr ''oldest'')) a b"
    then show "timestamp parse b \<le> timestamp parse a"
      using comes_after_oldest [OF xy] xy by (simp add: timestamp_valid)
  }
  {
    assume "\<not> comes_after (compare_tasks parse (JStr ''oldest'')) a b"
    then show "timestamp parse a \<le> timestamp parse b"
      using comes_after_oldest [OF xy] xy by (simp add: timestamp_valid)
  }
next
  fix a b d :: task
  assume "timestamp parse a \<le> timestamp parse b" "timestamp parse b \<le> timestamp parse d"
  then show "timestamp parse a \<le> timestamp parse d" by simp
qed

lemma strict_of_distinct_desc:
  "sorted_wrt (\<lambda>a b. f b \<le> (f a :: int)) xs \<Longrightarrow> distinct (map f xs) \<Longrightarrow>
   sorted_wrt (\<lambda>a b. f b < f a) xs"
proof (induction xs)
  case Nil
  then show ?case by simp
next
  case (Cons a xs)
  have "\<forall>y \<in> set xs. f y < f a"
  proof
    fix y assume y: "y \<in> set xs"
    then have "f y \<le> f a" using Cons.prems(1) by simp
    moreover have "f a \<notin> f ` set xs" using Cons.prems(2) by simp
    then have "f y \<noteq> f a" using y by (metis imageI)
    ultimately show "f y < f a" by simp
  qed
  with Cons show ?case by simp
qed

lemma strict_of_distinct_asc:
  "sorted_wrt (\<lambda>a b. f a \<le> (f b :: int)) xs \<Longrightarrow> distinct (map f xs) \<Longrightarrow>
   sorted_wrt (\<lambda>a b. f a < f b) xs"
proof (induction xs)
  case Nil
  then show ?case by simp
next
  case (Cons a xs)
  have "\<forall>y \<in> set xs. f a < f y"
  proof
    fix y assume y: "y \<in> set xs"
    then have "f a \<le> f y" using Cons.prems(1) by simp
    moreover have "f a \<notin> f ` set xs" using Cons.prems(2) by simp
    then have "f y \<noteq> f a" using y by (metis imageI)
    ultimately show "f a < f y" by simp
  qed
  with Cons show ?case by simp
qed

lemma distinct_map_sort_js:
  "distinct (map f xs) \<Longrightarrow> distinct (map f (sort_js c xs))"
proof -
  assume d: "distinct (map f xs)"
  have "mset (map f (sort_js c xs)) = mset (map f xs)"
    by (simp add: mset_sort_js)
  then show ?thesis using d mset_eq_imp_distinct_iff by blast
qed

lemma falsy_date: "\<not> truthy (createdAt t) \<Longrightarrow> task_date parse t = Some 0"
  by (simp add: task_date_def or_js_def time_clip_def)

text \<open>
  C2 as stated does not hold: with \<^verbatim>\<open>createdAt = "invalid"\<close> the date is invalid, the
  comparison with any other task is \<^verbatim>\<open>NaN\<close>, and the task keeps its place. In the default
  order it stays ahead of a task created one second after the epoch, where a timestamp
  of epoch zero would put it behind.
\<close>

theorem sort_unparseable_counterexample:
  "get_tasks parse_sample [task_bad_date, task1] JUndefined JUndefined =
     \<lparr>status = 200, body = JsonTasks [task_bad_date, task1]\<rparr> \<and>
   timestamp parse_sample task_bad_date = 0 \<and> timestamp parse_sample task1 = 1000 \<and>
   distinct (map (timestamp parse_sample) [task_bad_date, task1]) \<and>
   \<not> newest_first parse_sample
       (tasks_of (get_tasks parse_sample [task_bad_date, task1] JUndefined JUndefined))"
proof -
  have d: "task_date parse_sample task_bad_date = None" "task_date parse_sample task1 = Some 1000"
    by (simp_all add: task_date_def or_js_def task_bad_date_def task1_def parse_sample_def)
  have c: "\<not> comes_after (compare_tasks parse_sample JUndefined) task_bad_date task1"
    by (simp add: comes_after_def compare_tasks_def d)
  have g: "get_tasks parse_sample [task_bad_date, task1] JUndefined JUndefined =
     \<lparr>status = 200, body = JsonTasks [task_bad_date, task1]\<rparr>"
    by (simp add: get_tasks_def c)
  have t: "timestamp parse_sample task_bad_date = 0" "timestamp parse_sample task1 = 1000"
    by (simp_all add: timestamp_def d)
  show ?thesis
    by (simp add: g t tasks_of_def newest_first_def)
qed

text \<open>
  C2, amended: for every store in which every \<^verbatim>\<open>createdAt\<close> is missing or gives a valid
  date and no two tasks have the same timestamp, the tasks of the \<^verbatim>\<open>GET /tasks\<close> response
  are in strictly descending order of timestamp by default and in strictly ascending
  order when \<^verbatim>\<open>sort=oldest\<close>; a task whose \<^verbatim>\<open>createdAt\<close> is missing (or any value that
  counts as false) has the date and the timestamp of epoch zero.
\<close>

theorem sort_by_createdAt:
  assumes "\<forall>t \<in> set tasks. task_date parse t \<noteq> None"
    and "distinct (map (timestamp parse) tasks)"
  shows "status (get_tasks parse tasks q_completed q_sort) = 200 \<and>
     (if q_sort = JStr ''oldest''
      then oldest_first parse (tasks_of (get_tasks parse tasks q_completed q_sort))
      else newest_first parse (tasks_of (get_tasks parse tasks q_completed q_sort))) \<and>
     (\<forall>t. \<not> truthy (createdAt t) \<longrightarrow> task_date parse t = Some 0 \<and> timestamp parse t = 0)"
proof -
  define xs where "xs =
     (if \<not> strict_eq q_completed JUndefined
      then filter (\<lambda>t. strict_eq (completed t) (JBool (strict_eq q_completed (JStr ''true'')))) tasks
      else tasks)"
  have g: "get_tasks parse tasks q_completed q_sort =
      \<lparr>status = 200, body = JsonTasks (sort_js (compare_tasks parse q_sort) xs)\<rparr>"
    by (simp add: get_tasks_def xs_def Let_def)
  have v: "\<forall>t \<in> set xs. task_date parse t \<noteq> None"
    using assms(1) by (simp add: xs_def)
  have d: "distinct (map (timestamp parse) xs)"
    using assms(2) by (simp add: xs_def distinct_map_filter)
  have ds: "distinct (map (timestamp parse) (sort_js (compare_tasks parse q_sort) xs))"
    using d by (rule distinct_map_sort_js)
  have order: "if q_sort = JStr ''oldest''
      then oldest_first parse (sort_js (compare_tasks parse q_sort) xs)
      else newest_first parse (sort_js (compare_tasks parse q_sort) xs)"
  proof (cases "q_sort = JStr ''oldest''")
    case True
    have "sorted_wrt (\<lambda>a b. timestamp parse a \<le> timestamp parse b)
        (sort_js (compare_tasks parse (JStr ''oldest'')) xs)"
      using v by (rule sort_js_ascending)
    then have "oldest_first parse (sort_js (compare_tasks parse (JStr ''oldest'')) xs)"
      unfolding oldest_first_def using ds True by (intro strict_of_distinct_asc) simp_all
    with True show ?thesis by simp
  next
    case False
    have "sorted_wrt (\<lambda>a b. timestamp parse b \<le> timestamp parse a)
        (sort_js (compare_tasks parse q_sort) xs)"
      using v False by (rule sort_js_descending)
    then have "newest_first parse (sort_js (compare_tasks parse q_sort) xs)"
      unfolding newest_first_def using ds by (intro strict_of_distinct_desc) simp_all
    with False show ?thesis by simp
  qed
  have z: "\<forall>t. \<not> truthy (createdAt t) \<longrightarrow> task_date parse t = Some 0 \<and> timestamp parse t = 0"
    by (simp add: falsy_date timestamp_def)
  show ?thesis
  proof (cases "q_sort = JStr ''oldest''")
    case True
    with order have "oldest_first parse (sort_js (compare_tasks parse q_sort) xs)" by simp
    with True z show ?thesis unfolding g by (simp add: tasks_of_def)
  next
    case False
    with order have "newest_first parse (sort_js (compare_tasks parse q_sort) xs)" by simp
    with False z show ?thesis unfolding g by (simp add: tasks_of_def)
  qed
qed

theorem sort_by_createdAt_witness:
  "task_date parse_sample task1 \<noteq> None \<and> task_date parse_sample task2 \<noteq> None \<and>
   distinct (map (timestamp parse_sample) [task1, task2]) \<and>
   get_tasks parse_sample [task1, task2] JUndefined JUndefined =
     \<lparr>status = 200, body = JsonTasks [task2, task1]\<rparr> \<and>
   get_tasks parse_sample [task2, task1] JUndefined (JStr ''oldest'') =
     \<lparr>status = 200, body = JsonTasks [task1, task2]\<rparr> \<and>
   newest_first parse_sample (tasks_of (get_tasks parse_sample [task1, task2] JUndefined JUndefined)) \<and>
   oldest_first parse_sample
     (tasks_of (get_tasks parse_sample [task2, task1] JUndefined (JStr ''oldest'')))"
proof -
  have d: "task_date parse_sample task1 = Some 1000" "task_date parse_sample task2 = Some 2000"
    by (simp_all add: task_date_def or_js_def task1_def task2_def parse_sample_def)
  have t: "timestamp parse_sample task1 = 1000" "timestamp parse_sample task2 = 2000"
    by (simp_all add: timestamp_def d)
  have h1: "\<forall>t \<in> set [task1, task2]. task_date parse_sample t \<noteq> None" by (simp add: d)
  have h1': "\<forall>t \<in> set [task2, task1]. task_date parse_sample t \<noteq> None" by (simp add: d)
  have h2: "distinct (map (timestamp parse_sample) [task1, task2])" by (simp add: t)
  have h2': "distinct (map (timestamp parse_sample) [task2, task1])" by (simp add: t)
  have c1: "comes_after (compare_tasks parse_sample JUndefined) task1 task2"
    by (simp add: comes_after_def compare_tasks_def d)
  have c2: "comes_after (compare_tasks parse_sample (JStr ''oldest'')) task2 task1"
    by (simp add: comes_after_def compare_tasks_def d)
  have g1: "get_tasks parse_sample [task1, task2] JUndefined JUndefined =
     \<lparr>status = 200, body = JsonTasks [task2, task1]\<rparr>"
    by (simp add: get_tasks_def c1)
  have g2: "get_tasks parse_sample [task2, task1] JUndefined (JStr ''oldest'') =
     \<lparr>status = 200, body = JsonTasks [task1, task2]\<rparr>"
    by (simp add: get_tasks_def c2)
  show ?thesis
    using sort_by_createdAt [OF h1 h2, of JUndefined JUndefined]
      sort_by_createdAt [OF h1' h2', of JUndefined "JStr ''oldest''"] d h2 g1 g2
    by simp
qed

section \<open>Identifier allocation\<close>

lemma maxId_fresh: "t \<in> set tasks \<Longrightarrow> task_id t < maxId tasks + 1"
  using maxId_ge [of t tasks] by simp

lemma distinct_splice: "distinct ys \<Longrightarrow> distinct (take i ys @ drop (Suc i) ys)"
  using set_take_disj_set_drop_if_distinct [of ys i "Suc i"] by simp

lemma distinct_delete:
  "distinct (map task_id tasks) \<Longrightarrow> distinct (map task_id (fst (delete_task tasks id_param)))"
proof (cases "findIndex (id_matches (parseInt id_param)) tasks")
  case None
  assume "distinct (map task_id tasks)"
  with None show ?thesis by (simp add: delete_task_def)
next
  case (Some i)
  assume "distinct (map task_id tasks)"
  then have "distinct (take i (map task_id tasks) @ drop (Suc i) (map task_id tasks))"
    by (rule distinct_splice)
  with Some show ?thesis by (simp add: delete_task_def take_map drop_map)
qed

text \<open>
  C1 as stated does not hold: on an empty store, a create is given id 1, the delete of
  id 1 succeeds, and the next create is given id 1 again.
\<close>

theorem id_reused_counterexample:
  "snd (run [] [Create ''2025-12-28T16:30:59.889Z'' body_AB, Delete ''1'',
                Create ''2025-12-28T16:31:00.000Z'' body_high]) =
     [\<lparr>status = 201,
         body = JsonTask \<lparr>task_id = 1, title = JStr ''A'', description = JStr ''B'',
                  completed = JBool False, priority = JStr ''medium'',
                  createdAt = JStr ''2025-12-28T16:30:59.889Z''\<rparr>\<rparr>,
      \<lparr>status = 200, body = JsonMessage ''Task deleted successfully''\<rparr>,
      \<lparr>status = 201,
         body = JsonTask \<lparr>task_id = 1, title = JStr ''A'', description = JStr ''B'',
                  completed = JBool False, priority = JStr ''high'',
                  createdAt = JStr ''2025-12-28T16:31:00.000Z''\<rparr>\<rparr>] \<and>
   issued_ids (snd (run [] [Create ''2025-12-28T16:30:59.889Z'' body_AB, Delete ''1'',
                            Create ''2025-12-28T16:31:00.000Z'' body_high])) = [1, 1] \<and>
   \<not> sorted_wrt (<) (issued_ids (snd (run [] [Create ''2025-12-28T16:30:59.889Z'' body_AB,
                            Delete ''1'', Create ''2025-12-28T16:31:00.000Z'' body_high])))"
proof -
  have v2: "validateTask body_high True = Valid"
    by (simp add: validateTask_strict first_failure_def rule_nonempty_string_def
        rule_boolean_def rule_priority_def body_high_def body_AB_def empty_object_def is_ws_def)
  have f1: "body_AB ''title'' = JStr ''A''" "body_AB ''description'' = JStr ''B''"
    "body_AB ''completed'' = JBool False" "body_AB ''priority'' = JUndefined"
    by (simp_all add: body_AB_def empty_object_def)
  have f2: "body_high ''title'' = JStr ''A''" "body_high ''description'' = JStr ''B''"
    "body_high ''completed'' = JBool False" "body_high ''priority'' = JStr ''high''"
    by (simp_all add: body_high_def body_AB_def empty_object_def)
  have p: "parseInt ''1'' = Some 1" by code_simp
  have a: "add_js 0 1 = 1" by (simp add: add_js_exact)
  have r: "snd (run [] [Create ''2025-12-28T16:30:59.889Z'' body_AB, Delete ''1'',
                Create ''2025-12-28T16:31:00.000Z'' body_high]) =
     [\<lparr>status = 201,
         body = JsonTask \<lparr>task_id = 1, title = JStr ''A'', description = JStr ''B'',
                  completed = JBool False, priority = JStr ''medium'',
                  createdAt = JStr ''2025-12-28T16:30:59.889Z''\<rparr>\<rparr>,
      \<lparr>status = 200, body = JsonMessage ''Task deleted successfully''\<rparr>,
      \<lparr>status = 201,
         body = JsonTask \<lparr>task_id = 1, title = JStr ''A'', description = JStr ''B'',
                  completed = JBool False, priority = JStr ''high'',
                  createdAt = JStr ''2025-12-28T16:31:00.000Z''\<rparr>\<rparr>]"
    by (simp add: post_task_valid [OF body_AB_valid] post_task_valid [OF v2] f1 f2
        delete_task_def p id_matches_def maxId_def or_js_def a)
  show ?thesis unfolding r by simp
qed

text \<open>
  C1, amended: after every sequence of create and delete requests, when the largest id
  in the store plus one is at most \<open>2 ^ 53\<close> in magnitude (where the addition of numbers
  is exact), a create with a valid body is given the largest id in the store plus one (1
  on an empty store), which is strictly greater than the id of every task in the store at
  that moment, so of every earlier created task that has not been deleted; and when the
  ids of the store are pairwise distinct, they are so after that create and after any
  delete.
\<close>

theorem create_id_above_live:
  "validateTask req_body True = Valid \<Longrightarrow>
   \<bar>maxId (fst (run tasks reqs)) + 1\<bar> \<le> 9007199254740992 \<Longrightarrow>
   \<exists>t. handle (fst (run tasks reqs)) (Create now req_body) =
         (fst (run tasks reqs) @ [t], \<lparr>status = 201, body = JsonTask t\<rparr>) \<and>
       task_id t = maxId (fst (run tasks reqs)) + 1 \<and>
       (\<forall>u \<in> set (fst (run tasks reqs)). task_id u < task_id t) \<and>
       (distinct (map task_id (fst (run tasks reqs))) \<longrightarrow>
          distinct (map task_id (fst (run tasks reqs) @ [t])) \<and>
          distinct (map task_id (fst (handle (fst (run tasks reqs)) (Delete id_param)))))"
proof -
  assume v: "validateTask req_body True = Valid"
  define s where "s = fst (run tasks reqs)"
  assume "\<bar>maxId (fst (run tasks reqs)) + 1\<bar> \<le> 9007199254740992"
  then have ex: "add_js (maxId s) 1 = maxId s + 1"
    unfolding s_def by (rule add_js_exact)
  define t where "t = \<lparr>task_id = maxId s + 1, title = req_body ''title'',
      description = req_body ''description'', completed = req_body ''completed'',
      priority = or_js (req_body ''priority'') (JStr ''medium''), createdAt = JStr now\<rparr>"
  have h: "handle s (Create now req_body) = (s @ [t], \<lparr>status = 201, body = JsonTask t\<rparr>)"
    using post_task_valid [OF v, of now s] by (simp add: t_def ex)
  have i: "task_id t = maxId s + 1" by (simp add: t_def)
  have above: "\<forall>u \<in> set s. task_id u < task_id t"
    using maxId_fresh [of _ s] by (simp add: i)
  have d: "distinct (map task_id s) \<longrightarrow>
      distinct (map task_id (s @ [t])) \<and>
      distinct (map task_id (fst (handle s (Delete id_param))))"
  proof
    assume ds: "distinct (map task_id s)"
    have "task_id t \<notin> task_id ` set s" using above by force
    with ds have "distinct (map task_id (s @ [t]))" by simp
    moreover have "distinct (map task_id (fst (handle s (Delete id_param))))"
      using ds by (simp add: distinct_delete)
    ultimately show "distinct (map task_id (s @ [t])) \<and>
      distinct (map task_id (fst (handle s (Delete id_param))))" by simp
  qed
  from h i above d show ?thesis unfolding s_def by blast
qed

theorem create_id_above_live_witness:
  "validateTask body_AB True = Valid \<and>
   fst (run [task1, task2] [Delete ''1'']) = [task2] \<and>
   \<bar>maxId [task2] + 1\<bar> \<le> 9007199254740992 \<and>
   (\<exists>t. handle [task2] (Create ''2025-12-28T16:30:59.889Z'' body_AB) =
          ([task2, t], \<lparr>status = 201, body = JsonTask t\<rparr>) \<and>
        task_id t = 3 \<and> task_id task2 < task_id t \<and> distinct (map task_id [task2, t]))"
proof -
  have p: "parseInt ''1'' = Some 1" by code_simp
  have r: "fst (run [task1, task2] [Delete ''1'']) = [task2]"
    by (simp add: delete_task_def p id_matches_def task1_def)
  have m: "maxId [task2] = 2" by (simp add: maxId_def task2_def)
  have b: "\<bar>maxId (fst (run [task1, task2] [Delete ''1''])) + 1\<bar> \<le> 9007199254740992"
    unfolding r by (simp add: m)
  have d: "distinct (map task_id [task2])" by simp
  show ?thesis
    using create_id_above_live [OF body_AB_valid b, of "''2025-12-28T16:30:59.889Z''"]
      body_AB_valid d
    unfolding r by (auto simp: m)
qed

end
